theory Spec2Isabelle
  imports Complex_Main "HOL-Library.Log_Nat"
begin

section \<open>Documentation tools: a shallow embedding of the three pipelines\<close>

text \<open>
  The repository holds three independent scripts: \<^verbatim>\<open>class-diagram.py\<close>,
  \<^verbatim>\<open>code-explanation.py\<close> and \<^verbatim>\<open>use-case.py\<close>. Each scans or reads source
  files, calls a language model, and writes a document. Everything outside the scripts
  (the file system, the environment, the model client, the renderers, the ignore-file
  library) is a field of the record \<open>world\<close>; every call that can raise returns a
  sum with the exception on the left; every effect that a property talks about is an
  event of the trace a function returns next to its result.
\<close>

subsection \<open>Exceptions, events and the effect type\<close>

datatype exn =
    ValueError
  | OverflowError
  | ZeroDivisionError
  | OSError
  | ExternalError

datatype level = INFO | WARNING | ERROR

text \<open>
  \<open>ReadFile p\<close>: a file under the project directory is opened for reading, \<open>p\<close> its
  path relative to that directory, one component per element.
  \<open>ReadIgnore\<close>: the \<^verbatim>\<open>.gitignore\<close> of the project directory is opened.
  \<open>ReadArg\<close>: the file given on the command line is opened (use-case script).
  \<open>CountTokens\<close>: \<^verbatim>\<open>llm.get_num_tokens\<close> is called.
  \<open>MakeDirs\<close>: \<^verbatim>\<open>os.makedirs\<close> is called.
  \<open>NetworkCall\<close>: \<^verbatim>\<open>chain.invoke\<close> is called.
  \<open>WriteFile n\<close>: the output file \<open>n\<close> is written.
  \<open>Log l\<close>: a record of level \<open>l\<close> goes to the logger.
\<close>

datatype event =
    ReadIgnore
  | ReadFile "string list"
  | ReadArg
  | CountTokens
  | MakeDirs
  | NetworkCall
  | WriteFile string
  | Log level

type_synonym 'a io = "(exn + 'a) \<times> event list"

definition io_return :: "'a \<Rightarrow> 'a io" where
  "io_return x = (Inr x, [])"

definition io_raise :: "exn \<Rightarrow> 'a io" where
  "io_raise e = (Inl e, [])"

definition io_emit :: "event \<Rightarrow> unit io" where
  "io_emit ev = (Inr (), [ev])"

definition io_lift :: "exn + 'a \<Rightarrow> 'a io" where
  "io_lift r = (r, [])"

definition io_bind :: "'a io \<Rightarrow> ('a \<Rightarrow> 'b io) \<Rightarrow> 'b io" where
  "io_bind m f =
     (case m of
        (Inl e, t) \<Rightarrow> (Inl e, t)
      | (Inr x, t) \<Rightarrow> (case f x of (r, t') \<Rightarrow> (r, t @ t')))"

definition io_then :: "unit io \<Rightarrow> 'b io \<Rightarrow> 'b io" where
  "io_then m k = io_bind m (\<lambda>_. k)"

text \<open>\<^verbatim>\<open>try: m except Exception as e: h e\<close>\<close>

definition io_try :: "'a io \<Rightarrow> (exn \<Rightarrow> 'a io) \<Rightarrow> 'a io" where
  "io_try m h =
     (case m of
        (Inl e, t) \<Rightarrow> (case h e of (r, t') \<Rightarrow> (r, t @ t'))
      | (Inr x, t) \<Rightarrow> (Inr x, t))"

subsection \<open>Python string operations\<close>

text \<open>
  Strings are lists of characters. \<open>str_find_split sep s\<close> cuts \<open>s\<close> at the first
  occurrence of \<open>sep\<close>; \<open>str_split1\<close> is \<^verbatim>\<open>s.split(sep, 1)\<close> for a non-empty
  separator: one element when the separator does not occur, two otherwise.
\<close>

fun str_find_split :: "string \<Rightarrow> string \<Rightarrow> (string \<times> string) option" where
  "str_find_split sep [] = None"
| "str_find_split sep (c # cs) =
     (if take (length sep) (c # cs) = sep then Some ([], drop (length sep) (c # cs))
      else map_option (\<lambda>(a, b). (c # a, b)) (str_find_split sep cs))"

definition str_split1 :: "string \<Rightarrow> string \<Rightarrow> string list" where
  "str_split1 sep s = (case str_find_split sep s of None \<Rightarrow> [s] | Some (a, b) \<Rightarrow> [a, b])"

text \<open>
  \<^verbatim>\<open>s.replace(old, new)\<close>: every non-overlapping occurrence, scanning from the left.
  With an empty \<open>old\<close> Python puts \<open>new\<close> before every character and at the end.
\<close>

function str_replace :: "string \<Rightarrow> string \<Rightarrow> string \<Rightarrow> string" where
  "str_replace old new s =
     (if old = [] then new @ concat (map (\<lambda>c. c # new) s)
      else if s = [] then []
      else if take (length old) s = old then new @ str_replace old new (drop (length old) s)
      else hd s # str_replace old new (tl s))"
  by pat_completeness auto
termination
  by (relation "measure (\<lambda>(old, new, s). length s)") auto

declare str_replace.simps [simp del]

text \<open>
  \<^verbatim>\<open>str.isspace\<close> on the code points below 256: tab to carriage return, the four
  separators \<open>0x1C\<close> to \<open>0x1F\<close>, space, \<open>0x85\<close> and \<open>0xA0\<close>. \<^verbatim>\<open>s.strip()\<close> drops them
  from both ends.
\<close>

definition is_space :: "char \<Rightarrow> bool" where
  "is_space c = ((of_char c :: nat) \<in> {9..13} \<union> {28..32} \<union> {133, 160})"

definition str_strip :: "string \<Rightarrow> string" where
  "str_strip s = rev (dropWhile is_space (rev (dropWhile is_space s)))"


definition startswith :: "string \<Rightarrow> string \<Rightarrow> bool" where
  "startswith s p = (take (length p) s = p)"

definition endswith :: "string \<Rightarrow> string \<Rightarrow> bool" where
  "endswith s p = (length p \<le> length s \<and> drop (length s - length p) s = p)"

fun str_join :: "string \<Rightarrow> string list \<Rightarrow> string" where
  "str_join sep [] = []"
| "str_join sep [x] = x"
| "str_join sep (x # y # ys) = x @ sep @ str_join sep (y # ys)"


subsection \<open>Python floats\<close>

text \<open>
  A Python float is an IEEE 754 binary64 value. A finite one is the rational it
  denotes (the sign of a zero is not kept: no operation below tells the two zeros
  apart). \<open>to_double\<close> rounds a rational to the nearest double, ties to the even
  significand: \<open>binade x\<close> is the exponent \<open>e\<close> with \<open>2^e \<le> x < 2^(e+1)\<close>, the
  spacing of doubles there is \<open>2^(e-52)\<close> (and \<open>2^(-1074)\<close> below \<open>2^(-1022)\<close>),
  and a result that reaches \<open>2^1024\<close> is an infinity.
\<close>

datatype pyfloat = Finite rat | PosInf | NegInf | NaN

definition round_half_even :: "rat \<Rightarrow> int" where
  "round_half_even x =
     (let f = \<lfloor>x\<rfloor>; r = x - of_int f
      in if r < 1 / 2 then f else if 1 / 2 < r then f + 1 else if even f then f else f + 1)"

definition binade :: "rat \<Rightarrow> int" where
  "binade x = (if 1 \<le> x then bitlen \<lfloor>x\<rfloor> - 1 else - bitlen (\<lceil>1 / x\<rceil> - 1))"

definition pow2 :: "int \<Rightarrow> rat" where
  "pow2 e = power_int 2 e"

definition round_pos :: "rat \<Rightarrow> rat" where
  "round_pos x =
     (let e = max (binade x) (- 1022); u = pow2 (e - 52)
      in of_int (round_half_even (x / u)) * u)"

definition to_double :: "rat \<Rightarrow> pyfloat" where
  "to_double x =
     (if x = 0 then Finite 0
      else let m = round_pos \<bar>x\<bar>
           in if pow2 1024 \<le> m then (if 0 < x then PosInf else NegInf)
              else Finite (sgn x * m))"

fun float_sgn :: "pyfloat \<Rightarrow> int" where
  "float_sgn (Finite a) = (if 0 < a then 1 else if a < 0 then - 1 else 0)"
| "float_sgn PosInf = 1"
| "float_sgn NegInf = - 1"
| "float_sgn NaN = 0"

definition inf_of_sign :: "int \<Rightarrow> pyfloat" where
  "inf_of_sign s = (if 0 < s then PosInf else if s < 0 then NegInf else NaN)"

text \<open>\<^verbatim>\<open>x * y\<close> and \<^verbatim>\<open>x + y\<close> on floats: the exact result, rounded; never an exception.\<close>

fun float_mul :: "pyfloat \<Rightarrow> pyfloat \<Rightarrow> pyfloat" where
  "float_mul (Finite a) (Finite b) = to_double (a * b)"
| "float_mul NaN y = NaN"
| "float_mul x NaN = NaN"
| "float_mul x y = inf_of_sign (float_sgn x * float_sgn y)"

fun float_add :: "pyfloat \<Rightarrow> pyfloat \<Rightarrow> pyfloat" where
  "float_add (Finite a) (Finite b) = to_double (a + b)"
| "float_add NaN y = NaN"
| "float_add x NaN = NaN"
| "float_add PosInf NegInf = NaN"
| "float_add NegInf PosInf = NaN"
| "float_add PosInf y = PosInf"
| "float_add x PosInf = PosInf"
| "float_add NegInf y = NegInf"
| "float_add x NegInf = NegInf"

text \<open>\<^verbatim>\<open>x <= y\<close> on floats.\<close>

fun float_le :: "pyfloat \<Rightarrow> pyfloat \<Rightarrow> bool" where
  "float_le (Finite a) (Finite b) = (a \<le> b)"
| "float_le NaN y = False"
| "float_le x NaN = False"
| "float_le NegInf y = True"
| "float_le x PosInf = True"
| "float_le PosInf y = False"
| "float_le x NegInf = False"

text \<open>
  \<^verbatim>\<open>a / b\<close> on two Python ints: the exact quotient, correctly rounded;
  \<^verbatim>\<open>ZeroDivisionError\<close> for a zero divisor, \<^verbatim>\<open>OverflowError\<close> when the quotient is
  too large for a float.
\<close>

definition int_truediv :: "int \<Rightarrow> int \<Rightarrow> exn + pyfloat" where
  "int_truediv a b =
     (if b = 0 then Inl ZeroDivisionError
      else case to_double (of_int a / of_int b) of
             Finite r \<Rightarrow> Inr (Finite r)
           | _ \<Rightarrow> Inl OverflowError)"

subsection \<open>Cost\<close>

text \<open>The float literals \<^verbatim>\<open>0.25\<close> and \<^verbatim>\<open>1.25\<close> (both scripts), \<^verbatim>\<open>0.002\<close> (use-case).\<close>

definition PRICE_PER_1M_INPUT_TOKENS :: pyfloat where
  "PRICE_PER_1M_INPUT_TOKENS = to_double (25 / 100)"

definition PRICE_PER_1M_OUTPUT_TOKENS :: pyfloat where
  "PRICE_PER_1M_OUTPUT_TOKENS = to_double (125 / 100)"

definition PRICE_PER_1K_TOKENS :: pyfloat where
  "PRICE_PER_1K_TOKENS = to_double (2 / 1000)"

text \<open>\<^verbatim>\<open>calculate_cost\<close>, the same text in class-diagram.py and code-explanation.py.\<close>

definition calculate_cost :: "int \<Rightarrow> int \<Rightarrow> exn + pyfloat" where
  "calculate_cost input_tokens output_tokens =
     (case int_truediv input_tokens 1000000 of
        Inl e \<Rightarrow> Inl e
      | Inr qi \<Rightarrow>
          (let input_cost = float_mul qi PRICE_PER_1M_INPUT_TOKENS
           in case int_truediv output_tokens 1000000 of
                Inl e \<Rightarrow> Inl e
              | Inr qo \<Rightarrow>
                  (let output_cost = float_mul qo PRICE_PER_1M_OUTPUT_TOKENS;
                       total_cost = float_add input_cost output_cost
                   in Inr total_cost)))"

text \<open>The expression \<^verbatim>\<open>(token_usage / 1000) * PRICE_PER_1K_TOKENS\<close> of \<^verbatim>\<open>save_use_case\<close>.\<close>

definition estimated_cost :: "int \<Rightarrow> exn + pyfloat" where
  "estimated_cost token_usage =
     (case int_truediv token_usage 1000 of
        Inl e \<Rightarrow> Inl e
      | Inr q \<Rightarrow> Inr (float_mul q PRICE_PER_1K_TOKENS))"


subsection \<open>The file system and the ignore file\<close>

text \<open>
  A directory is the list of its entries in the order \<^verbatim>\<open>os.walk\<close> lists them. A
  file carries the text that \<^verbatim>\<open>open(...).read()\<close> returns, or \<open>None\<close> when opening
  or decoding it raises. A relative path is the list of its components; the project
  directory itself is \<open>[]\<close>, and \<^verbatim>\<open>os.path.relpath\<close> names it \<^verbatim>\<open>.\<close>.
\<close>

datatype node = File string "string option" | Dir string "node list"

type_synonym path = "string list"

fun file_entries :: "node list \<Rightarrow> (string \<times> string option) list" where
  "file_entries [] = []"
| "file_entries (File n c # es) = (n, c) # file_entries es"
| "file_entries (Dir n sub # es) = file_entries es"

fun lookup_node :: "string \<Rightarrow> node list \<Rightarrow> node option" where
  "lookup_node n [] = None"
| "lookup_node n (File m c # es) = (if m = n then Some (File m c) else lookup_node n es)"
| "lookup_node n (Dir m sub # es) = (if m = n then Some (Dir m sub) else lookup_node n es)"

text \<open>
  \<^verbatim>\<open>os.walk(directory)\<close>, top down: it yields a directory with its files, then walks
  the subdirectories that are left in \<^verbatim>\<open>dirs\<close>. Both scanners filter \<^verbatim>\<open>dirs\<close> in
  place as the first statement of the loop body, before any \<^verbatim>\<open>continue\<close>; \<open>keep\<close>
  is that filter.
\<close>

fun os_walk_node :: "(string \<Rightarrow> bool) \<Rightarrow> path \<Rightarrow> node \<Rightarrow> (path \<times> (string \<times> string option) list) list" where
  "os_walk_node keep parent (File n c) = []"
| "os_walk_node keep parent (Dir n es) =
     (if keep n
      then (parent @ [n], file_entries es) # concat (map (os_walk_node keep (parent @ [n])) es)
      else [])"

definition os_walk :: "(string \<Rightarrow> bool) \<Rightarrow> node list \<Rightarrow> (path \<times> (string \<times> string option) list) list" where
  "os_walk keep es = ([], file_entries es) # concat (map (os_walk_node keep []) es)"

definition relpath :: "path \<Rightarrow> path" where
  "relpath p = (if p = [] then [''.''] else p)"

definition path_str :: "path \<Rightarrow> string" where
  "path_str p = str_join ''/'' p"

text \<open>
  Modelled from the spec: the matcher of the \<^verbatim>\<open>pathspec\<close> library, which is not part
  of the repository. A compiled ignore file is the list of its patterns in file order;
  a pattern is an exclude pattern (\<open>pat_include = True\<close>) or a \<^verbatim>\<open>!\<close>-prefixed
  re-inclusion (\<open>pat_include = False\<close>) and decides by itself which relative paths it
  matches. \<open>match_file\<close> evaluates the patterns in order, and the last one that
  matches the path decides; a path that no pattern matches is not ignored.
\<close>

datatype pattern = Pattern (pat_include: bool) (pat_matches: "path \<Rightarrow> bool")

definition match_file :: "pattern list \<Rightarrow> path \<Rightarrow> bool" where
  "match_file spec p =
     fold (\<lambda>pat matched. if pat_matches pat p then pat_include pat else matched) spec False"

subsection \<open>The world outside the scripts\<close>

record world =
  environ :: "string \<Rightarrow> string option"
  project_tree :: "node list"
  from_lines :: "string \<Rightarrow> pattern list"
  llm_init :: "string option \<Rightarrow> exn option"
  chain_invoke :: "string list \<Rightarrow> exn + string"
  get_num_tokens :: "string \<Rightarrow> exn + int"
  prompt_format :: "string list \<Rightarrow> string"
  makedirs :: "string \<Rightarrow> exn option"
  write_text :: "string \<Rightarrow> exn option"
  render_screenshot :: "string \<Rightarrow> string \<Rightarrow> string \<Rightarrow> exn option"
  save_image :: "string \<Rightarrow> exn option"
  path_exists :: "string \<Rightarrow> bool"
  doc_init :: "exn option"
  add_picture :: "string \<Rightarrow> exn option"
  doc_save :: "string \<Rightarrow> exn option"
  argv_file_path :: string
  read_text :: "string \<Rightarrow> exn + string"
  findall_controller_methods :: "string \<Rightarrow> string list"
  findall_prisma_models :: "string \<Rightarrow> string list"

text \<open>
  \<open>environ\<close>: \<^verbatim>\<open>os.getenv\<close>. \<open>project_tree\<close>: the entries of the directory named by
  \<^verbatim>\<open>PROJECT_DIRECTORY\<close>. \<open>from_lines\<close>: \<^verbatim>\<open>PathSpec.from_lines\<close> on the lines of
  the ignore file. \<open>llm_init\<close>: the constructor of the chat model, given the key it is
  passed. \<open>chain_invoke\<close>: \<^verbatim>\<open>chain.invoke\<close> on the values of the prompt's slots.
  \<open>prompt_format\<close>: the rendered prompt. \<open>write_text\<close>: opening a file for writing
  and writing it. \<open>render_screenshot\<close>: highlighting and drawing one image, from the
  file name, the code and the caption; \<open>save_image\<close>: saving it. \<open>doc_init\<close>,
  \<open>add_picture\<close>, \<open>doc_save\<close>: the calls of the document library. \<open>read_text\<close>: \<^verbatim>\<open>open(path).read()\<close> of the use-case script.
  The two \<open>findall\<close> fields are \<^verbatim>\<open>re.findall\<close> with the two regular expressions.
\<close>

definition opt_raise :: "exn option \<Rightarrow> unit io" where
  "opt_raise r = (case r of None \<Rightarrow> io_return () | Some e \<Rightarrow> io_raise e)"

text \<open>Python truth of a string or of \<^verbatim>\<open>os.getenv\<close>'s result.\<close>

definition truthy :: "string option \<Rightarrow> bool" where
  "truthy v = (case v of None \<Rightarrow> False | Some s \<Rightarrow> s \<noteq> [])"

definition log_msg :: "level \<Rightarrow> unit io" where
  "log_msg l = io_emit (Log l)"

definition get_gitignore_spec :: "world \<Rightarrow> pattern list io" where
  "get_gitignore_spec w =
     (case lookup_node ''.gitignore'' (project_tree w) of
        None \<Rightarrow> io_return []
      | Some (File n (Some gitignore_content)) \<Rightarrow>
          io_then (io_emit ReadIgnore) (io_return (from_lines w gitignore_content))
      | Some other \<Rightarrow> io_then (io_emit ReadIgnore) (io_raise OSError))"

definition pruned_dirs :: "string list" where
  "pruned_dirs = [''.git'', ''node_modules'', ''dist'', ''build'']"

definition skipped_parts :: "string list" where
  "skipped_parts = [''tests'', ''seeders'', ''config'']"

definition keep_dir :: "string \<Rightarrow> bool" where
  "keep_dir d = (d \<notin> set pruned_dirs)"

definition skip_dir :: "pattern list \<Rightarrow> path \<Rightarrow> bool" where
  "skip_dir spec dir =
     (let rel_path = relpath dir
      in if ''tests'' \<in> set rel_path \<or> ''seeders'' \<in> set rel_path \<or> ''config'' \<in> set rel_path
         then True
         else match_file spec rel_path)"


definition invoke :: "world \<Rightarrow> string list \<Rightarrow> string io" where
  "invoke w slots = io_then (io_emit NetworkCall) (io_lift (chain_invoke w slots))"

definition count_tokens :: "world \<Rightarrow> string \<Rightarrow> int io" where
  "count_tokens w text = io_then (io_emit CountTokens) (io_lift (get_num_tokens w text))"

text \<open>\<^verbatim>\<open>os.path.join\<close>, \<^verbatim>\<open>os.path.basename\<close> and the first half of \<^verbatim>\<open>os.path.splitext\<close>.\<close>

definition os_path_join :: "string \<Rightarrow> string \<Rightarrow> string" where
  "os_path_join a b =
     (if startswith b ''/'' then b
      else if a = [] \<or> endswith a ''/'' then a @ b
      else a @ ''/'' @ b)"

definition basename :: "string \<Rightarrow> string" where
  "basename p = rev (takeWhile (\<lambda>c. c \<noteq> CHR ''/'') (rev p))"

definition splitext_root :: "string \<Rightarrow> string" where
  "splitext_root p =
     (if CHR ''.'' \<notin> set p then p
      else let ext = takeWhile (\<lambda>c. c \<noteq> CHR ''.'') (rev p);
               stem = take (length p - length ext - 1) p
           in if list_all (\<lambda>c. c = CHR ''.'') stem then p else stem)"

subsection \<open>class-diagram.py\<close>

record scan =
  typescript_content :: string
  prisma_schema :: string
  file_list :: "string list"

text \<open>The body of \<^verbatim>\<open>for file in files\<close>, on the scan state and the trace so far.\<close>

definition read_project_file ::
  "pattern list \<Rightarrow> path \<Rightarrow> string \<times> string option \<Rightarrow> scan \<times> event list \<Rightarrow> scan \<times> event list" where
  "read_project_file spec dir entry acc =
     (case entry of (file, contents) \<Rightarrow>
        if endswith file ''.ts'' \<or> file = ''schema.prisma'' then
          (let rel_file_path = dir @ [file]
           in if \<not> match_file spec rel_file_path then
                (case contents of
                   None \<Rightarrow> (fst acc, snd acc @ [ReadFile rel_file_path, Log ERROR])
                 | Some content \<Rightarrow>
                     (let st = fst acc;
                          st1 = (if endswith file ''.ts''
                                 then st\<lparr>typescript_content := typescript_content st
                                        @ ''\<newline>\<newline>--- '' @ path_str rel_file_path
                                        @ '' ---\<newline>\<newline>'' @ content\<rparr>
                                 else if file = ''schema.prisma''
                                 then st\<lparr>prisma_schema := content\<rparr>
                                 else st);
                          st2 = st1\<lparr>file_list := file_list st1 @ [path_str rel_file_path]\<rparr>
                      in (st2, snd acc @ [ReadFile rel_file_path])))
              else acc)
        else acc)"

text \<open>The body of \<^verbatim>\<open>for root, dirs, files in os.walk(directory)\<close>.\<close>

definition scan_project_dir ::
  "pattern list \<Rightarrow> path \<times> (string \<times> string option) list \<Rightarrow> scan \<times> event list \<Rightarrow> scan \<times> event list" where
  "scan_project_dir spec visit acc =
     (case visit of (dir, files) \<Rightarrow>
        if skip_dir spec dir then acc else fold (read_project_file spec dir) files acc)"

definition read_project_files :: "world \<Rightarrow> (string \<times> string \<times> string list) io" where
  "read_project_files w =
     io_bind (get_gitignore_spec w) (\<lambda>gitignore_spec.
       case fold (scan_project_dir gitignore_spec) (os_walk keep_dir (project_tree w))
              (\<lparr>typescript_content = [], prisma_schema = [], file_list = []\<rparr>, [])
       of (st, tr) \<Rightarrow>
         (Inr (typescript_content st, prisma_schema st, file_list st), tr @ [Log INFO]))"

definition generate_diagram :: "world \<Rightarrow> string \<Rightarrow> string \<Rightarrow> (string \<times> int \<times> int) io" where
  "generate_diagram w ts ps =
     (let api_key = environ w ''ANTHROPIC_API_KEY''
      in if \<not> truthy api_key then io_then (log_msg ERROR) (io_return ([], 0, 0))
         else
           io_then (opt_raise (llm_init w api_key))
             (io_try
                (io_bind (invoke w [ts, ps]) (\<lambda>diagram.
                 io_then (log_msg INFO)
                 (io_bind (count_tokens w (prompt_format w [ts, ps])) (\<lambda>input_tokens.
                  io_bind (count_tokens w diagram) (\<lambda>output_tokens.
                  io_return (diagram, input_tokens, output_tokens))))))
                (\<lambda>e. io_then (log_msg ERROR) (io_return ([], 0, 0)))))"

definition save_diagram_to_file :: "world \<Rightarrow> string \<Rightarrow> string \<Rightarrow> unit io" where
  "save_diagram_to_file w diagram file_path =
     io_try
       (io_then (io_emit (WriteFile file_path))
         (io_then (opt_raise (write_text w file_path)) (log_msg INFO)))
       (\<lambda>e. log_msg ERROR)"

definition generate_class_diagram ::
  "world \<Rightarrow> (string \<times> int \<times> int \<times> pyfloat \<times> string list) io" where
  "generate_class_diagram w =
     io_try
       (io_bind (read_project_files w) (\<lambda>(ts, ps, files).
          if ts = [] \<and> ps = [] then
            io_then (log_msg ERROR) (io_return ([], 0, 0, Finite 0, []))
          else
            io_bind (generate_diagram w ts ps) (\<lambda>(diagram, input_tokens, output_tokens).
            io_bind (io_lift (calculate_cost input_tokens output_tokens)) (\<lambda>cost.
            io_return (diagram, input_tokens, output_tokens, cost, files)))))
       (\<lambda>e. io_then (log_msg ERROR) (io_return ([], 0, 0, Finite 0, [])))"

text \<open>The script itself; the result is the exit status.\<close>

definition class_diagram_main :: "world \<Rightarrow> int io" where
  "class_diagram_main w =
     (if \<not> truthy (environ w ''PROJECT_DIRECTORY'') then io_return 1
      else
        io_bind (generate_class_diagram w) (\<lambda>(class_diagram, input_tokens, output_tokens, cost, files).
          if class_diagram \<noteq> [] then
            io_then (save_diagram_to_file w class_diagram ''combined_class_diagram.md'')
              (io_return 0)
          else io_return 0))"

subsection \<open>code-explanation.py\<close>

definition read_typescript_file ::
  "pattern list \<Rightarrow> path \<Rightarrow> string \<times> string option
     \<Rightarrow> (string \<times> string) list \<times> event list \<Rightarrow> (string \<times> string) list \<times> event list" where
  "read_typescript_file spec dir entry acc =
     (case entry of (file, contents) \<Rightarrow>
        if endswith file ''.tsx'' \<or> endswith file ''.ts'' then
          (let rel_file_path = dir @ [file]
           in if \<not> match_file spec rel_file_path then
                (case contents of
                   None \<Rightarrow> (fst acc, snd acc @ [ReadFile rel_file_path, Log ERROR])
                 | Some content \<Rightarrow>
                     (fst acc @ [(path_str rel_file_path, content)],
                      snd acc @ [ReadFile rel_file_path]))
              else acc)
        else acc)"

definition scan_typescript_dir ::
  "pattern list \<Rightarrow> path \<times> (string \<times> string option) list
     \<Rightarrow> (string \<times> string) list \<times> event list \<Rightarrow> (string \<times> string) list \<times> event list" where
  "scan_typescript_dir spec visit acc =
     (case visit of (dir, files) \<Rightarrow>
        if skip_dir spec dir then acc else fold (read_typescript_file spec dir) files acc)"

definition read_typescript_files :: "world \<Rightarrow> (string \<times> string) list io" where
  "read_typescript_files w =
     io_bind (get_gitignore_spec w) (\<lambda>gitignore_spec.
       case fold (scan_typescript_dir gitignore_spec) (os_walk keep_dir (project_tree w)) ([], [])
       of (typescript_files, tr) \<Rightarrow> (Inr typescript_files, tr @ [Log INFO]))"

definition create_output_directory :: "world \<Rightarrow> string io" where
  "create_output_directory w =
     (if \<not> path_exists w ''./output''
      then io_then (io_emit MakeDirs) (io_then (opt_raise (makedirs w ''./output'')) (io_return ''./output''))
      else io_return ''./output'')"

text \<open>
  The two statements that take the response apart:
  \<^verbatim>\<open>caption, explanation = result.split("\n\n", 1)\<close> (a \<^verbatim>\<open>ValueError\<close> unless the
  split gives two parts) and \<^verbatim>\<open>caption = caption.replace("Caption: ", "").strip()\<close>.
\<close>

definition blank_line :: string where
  "blank_line = [CHR 0x0A, CHR 0x0A]"

definition parse_response :: "string \<Rightarrow> exn + (string \<times> string)" where
  "parse_response result =
     (case str_split1 blank_line result of
        [caption, explanation] \<Rightarrow>
          Inr (str_strip (str_replace ''Caption: '' [] caption), explanation)
      | _ \<Rightarrow> Inl ValueError)"

definition generate_explanation ::
  "world \<Rightarrow> string \<Rightarrow> string \<Rightarrow> (string \<times> string \<times> int \<times> int) io" where
  "generate_explanation w file_name file_content =
     (let openai_api_key = environ w ''OPENAI_API_KEY''
      in io_then (opt_raise (llm_init w openai_api_key))
           (io_try
              (io_bind (invoke w [file_name, file_content]) (\<lambda>result.
               io_then (log_msg INFO)
               (io_bind (io_lift (parse_response result)) (\<lambda>(caption, explanation).
                io_bind (count_tokens w (prompt_format w [file_name, file_content])) (\<lambda>input_tokens.
                io_bind (count_tokens w result) (\<lambda>output_tokens.
                io_return (caption, explanation, input_tokens, output_tokens)))))))
              (\<lambda>e. io_then (log_msg ERROR) (io_then (log_msg ERROR) (io_return ([], [], 0, 0))))))"

definition screenshot_relpath :: "string \<Rightarrow> string" where
  "screenshot_relpath file_name = ''screenshots/'' @ splitext_root (basename file_name) @ ''.png''"

definition create_code_screenshot :: "world \<Rightarrow> string \<Rightarrow> string \<Rightarrow> string \<Rightarrow> string \<Rightarrow> string io" where
  "create_code_screenshot w file_name code_content caption output_dir =
     io_try
       (io_then (opt_raise (render_screenshot w file_name code_content caption))
        (io_then (io_emit MakeDirs)
        (io_then (opt_raise (makedirs w (os_path_join output_dir ''screenshots'')))
        (let output_path = os_path_join output_dir (screenshot_relpath file_name)
         in io_then (io_emit (WriteFile output_path))
            (io_then (opt_raise (save_image w output_path))
            (io_return (screenshot_relpath file_name)))))))
       (\<lambda>e. io_then (log_msg ERROR) (io_then (log_msg ERROR) (io_then (log_msg ERROR)
              (io_return []))))"

definition generate_explanation_with_screenshot ::
  "world \<Rightarrow> string \<Rightarrow> string \<Rightarrow> string \<Rightarrow> (string \<times> string \<times> string \<times> int \<times> int) io" where
  "generate_explanation_with_screenshot w file_name file_content output_dir =
     io_try
       (io_bind (generate_explanation w file_name file_content)
          (\<lambda>(caption, explanation, input_tokens, output_tokens).
        io_bind (create_code_screenshot w file_name file_content caption output_dir)
          (\<lambda>screenshot_path.
        io_return (caption, explanation, screenshot_path, input_tokens, output_tokens))))
       (\<lambda>e. io_then (log_msg ERROR) (io_return ([], [], [], 0, 0)))"

type_synonym explanation = "string \<times> string \<times> string \<times> string"

fun io_foreach :: "('a \<Rightarrow> unit io) \<Rightarrow> 'a list \<Rightarrow> unit io" where
  "io_foreach f [] = io_return ()"
| "io_foreach f (x # xs) = io_then (f x) (io_foreach f xs)"

definition add_section :: "world \<Rightarrow> string \<Rightarrow> explanation \<Rightarrow> unit io" where
  "add_section w output_dir item =
     (case item of (file_name, caption, explanation, screenshot_path) \<Rightarrow>
        (let full_screenshot_path = os_path_join output_dir screenshot_path
         in if path_exists w full_screenshot_path
            then opt_raise (add_picture w full_screenshot_path)
            else log_msg WARNING))"

definition create_word_document :: "world \<Rightarrow> explanation list \<Rightarrow> string \<Rightarrow> string option io" where
  "create_word_document w explanations output_dir =
     io_try
       (io_then (opt_raise (doc_init w))
        (io_then (io_foreach (add_section w output_dir) explanations)
        (let output_path = os_path_join output_dir ''code_explanations.docx''
         in io_then (io_emit (WriteFile output_path))
            (io_then (opt_raise (doc_save w output_path))
            (io_then (log_msg INFO) (io_return (Some output_path)))))))
       (\<lambda>e. io_then (log_msg ERROR) (io_return None))"

text \<open>The loop over the files read, on the explanations and the two token totals.\<close>

fun explain_files ::
  "world \<Rightarrow> string \<Rightarrow> (string \<times> string) list \<Rightarrow> explanation list \<times> int \<times> int
     \<Rightarrow> (explanation list \<times> int \<times> int) io" where
  "explain_files w output_dir [] acc = io_return acc"
| "explain_files w output_dir ((file_name, file_content) # rest) acc =
     io_bind
       (io_try
          (io_bind (generate_explanation_with_screenshot w file_name file_content output_dir)
             (\<lambda>(caption, explanation, screenshot_path, input_tokens, output_tokens).
                case acc of (explanations, total_input_tokens, total_output_tokens) \<Rightarrow>
                  if explanation \<noteq> [] then
                    io_return (explanations @ [(file_name, caption, explanation, screenshot_path)],
                               total_input_tokens + input_tokens,
                               total_output_tokens + output_tokens)
                  else io_return acc))
          (\<lambda>e. io_then (log_msg ERROR) (io_return acc)))
       (explain_files w output_dir rest)"

definition generate_code_explanations ::
  "world \<Rightarrow> string \<Rightarrow> (explanation list \<times> int \<times> int \<times> pyfloat \<times> string option) io" where
  "generate_code_explanations w output_dir =
     io_try
       (io_bind (read_typescript_files w) (\<lambda>typescript_files.
        io_bind (explain_files w output_dir typescript_files ([], 0, 0))
          (\<lambda>(explanations, total_input_tokens, total_output_tokens).
        io_bind (io_lift (calculate_cost total_input_tokens total_output_tokens)) (\<lambda>cost.
        io_bind (create_word_document w explanations output_dir) (\<lambda>word_doc_path.
        io_return (explanations, total_input_tokens, total_output_tokens, cost, word_doc_path))))))
       (\<lambda>e. io_then (log_msg ERROR) (io_return ([], 0, 0, Finite 0, None)))"

definition code_explanation_main :: "world \<Rightarrow> int io" where
  "code_explanation_main w =
     (if \<not> truthy (environ w ''PROJECT_DIRECTORY'') then io_return 1
      else
        io_bind (create_output_directory w) (\<lambda>output_dir.
        io_bind (generate_code_explanations w output_dir) (\<lambda>r. io_return 0)))"

subsection \<open>use-case.py\<close>








subsection \<open>Descriptions used by the properties\<close>

text \<open>
  \<open>scanned spec p\<close>: what holds of a path \<open>p\<close> that a scanner opens under the
  compiled ignore file \<open>spec\<close>.
\<close>

definition scanned :: "pattern list \<Rightarrow> path \<Rightarrow> bool" where
  "scanned spec p \<longleftrightarrow>
     p \<noteq> [] \<and> (\<forall>c \<in> set (butlast p). keep_dir c) \<and> \<not> skip_dir spec (butlast p)
     \<and> \<not> match_file spec p"







subsection \<open>Concrete worlds\<close>

text \<open>
  \<open>idle_world\<close>: no environment variable is set, the project directory is empty,
  every external call succeeds; the model answers with the empty string and the token
  counter counts characters. The concrete inputs below are updates of it.
\<close>

definition idle_world :: world where
  "idle_world =
     \<lparr>environ = (\<lambda>k. None), project_tree = [], from_lines = (\<lambda>c. []),
      llm_init = (\<lambda>k. None), chain_invoke = (\<lambda>slots. Inr []),
      get_num_tokens = (\<lambda>text. Inr (int (length text))), prompt_format = concat,
      makedirs = (\<lambda>p. None), write_text = (\<lambda>p. None),
      render_screenshot = (\<lambda>n c k. None), save_image = (\<lambda>p. None),
      path_exists = (\<lambda>p. False), doc_init = None, add_picture = (\<lambda>p. None),
      doc_save = (\<lambda>p. None), argv_file_path = [], read_text = (\<lambda>p. Inr []),
      findall_controller_methods = (\<lambda>c. []), findall_prisma_models = (\<lambda>c. [])\<rparr>"



text \<open>
  \<open>scenario_world\<close>: a source file, a log file the ignore file excludes, a test under
  \<^verbatim>\<open>tests\<close> and a module under \<^verbatim>\<open>node_modules\<close>. \<open>two_schemas_world\<close>: two files
  named \<^verbatim>\<open>schema.prisma\<close>. \<open>reinclude_world\<close>: an ignore file that excludes \<^verbatim>\<open>*.ts\<close>
  and then re-includes \<^verbatim>\<open>keep.ts\<close>; \<open>reinclude_spec\<close> is its compiled form.
\<close>

definition scenario_world :: world where
  "scenario_world = idle_world
     \<lparr>project_tree :=
        [File ''.gitignore'' (Some ''*.log''),
         Dir ''src'' [File ''a.ts'' (Some ''let a = 1''), File ''debug.log'' (Some ''log'')],
         Dir ''tests'' [File ''b.test.ts'' (Some ''test'')],
         Dir ''node_modules'' [Dir ''lib'' [File ''index.ts'' (Some ''lib'')]]],
      from_lines := (\<lambda>c. [Pattern True (\<lambda>p. p \<noteq> [] \<and> endswith (last p) ''.log'')])\<rparr>"






definition no_sources_world :: world where
  "no_sources_world = idle_world
     \<lparr>environ := (\<lambda>k. if k = ''PROJECT_DIRECTORY'' then Some ''/project''
                       else if k = ''OPENAI_API_KEY'' then Some ''key'' else None),
      project_tree :=
        [File ''README.md'' (Some ''# readme''), Dir ''docs'' [File ''notes.txt'' (Some ''n'')]]\<rparr>"


definition priced_world :: world where
  "priced_world = idle_world
     \<lparr>environ := (\<lambda>k. if k = ''PROJECT_DIRECTORY'' then Some ''/project''
                       else if k = ''ANTHROPIC_API_KEY'' then Some ''key'' else None),
      project_tree := [File ''a.ts'' (Some ''let a = 1'')],
      chain_invoke := (\<lambda>slots. Inr ''classDiagram''),
      get_num_tokens := (\<lambda>text. if text = ''classDiagram'' then Inr 3000 else Inr 12000)\<rparr>"


section \<open>Properties\<close>

subsection \<open>The effect type\<close>

lemma io_simps:
  "io_bind (Inr x, t) f = (fst (f x), t @ snd (f x))"
  "io_bind (Inl e, t) f = (Inl e, t)"
  "io_try (Inr x, t) h = (Inr x, t)"
  "io_try (Inl e, t) h = (fst (h e), t @ snd (h e))"
  by (simp_all add: io_bind_def io_try_def split: prod.splits)

subsection \<open>The response parser\<close>













subsection \<open>Rounding to a double, and the cost\<close>


lemma p2_pos: "0 < pow2 e"
  by (simp add: pow2_def power_int_def)

lemma p2_add: "pow2 (a + b) = pow2 a * pow2 b"
  unfolding pow2_def by (rule power_int_add) simp

lemma p2_mono: "a \<le> b \<Longrightarrow> pow2 a \<le> pow2 b"
  unfolding pow2_def by (rule power_int_increasing) simp_all

lemma p2_less_cancel: "pow2 a < pow2 b \<Longrightarrow> a < b"
  using p2_mono [of b a] by (cases "a < b") auto

lemma p2_nat: "0 \<le> e \<Longrightarrow> pow2 e = of_int (2 ^ nat e)"
  by (simp add: pow2_def power_int_def)

lemma p2_Suc: "pow2 (e + 1) = 2 * pow2 e"
  using p2_add [of e 1] by (simp add: pow2_def)

lemma p2_53: "pow2 (e + 1) = pow2 53 * pow2 (e - 52)"
  using p2_add [of 53 "e - 52"] by (simp add: algebra_simps)

lemma p2_52: "pow2 e = pow2 52 * pow2 (e - 52)"
  using p2_add [of 52 "e - 52"] by (simp add: algebra_simps)

lemma binade_bounds:
  assumes "0 < x"
  shows "pow2 (binade x) \<le> x \<and> x < pow2 (binade x + 1)"
proof (cases "1 \<le> x")
  case True
  define n where "n = \<lfloor>x\<rfloor>"
  have n: "1 \<le> n" using True by (simp add: n_def le_floor_iff)
  then have b: "2 ^ nat (bitlen n - 1) \<le> n" "n < 2 ^ nat (bitlen n)"
    using bitlen_bounds [of n] by auto
  have b1: "1 \<le> bitlen n"
    using b(2) n by (cases "bitlen n \<le> 0") auto
  have e: "binade x = bitlen n - 1" using True by (simp add: binade_def n_def)
  have "pow2 (bitlen n - 1) = of_int (2 ^ nat (bitlen n - 1))"
    using b1 by (intro p2_nat) simp
  also have "\<dots> \<le> of_int n" using b(1) by (simp only: of_int_le_iff)
  also have "\<dots> \<le> x" by (simp add: n_def)
  finally have lo: "pow2 (binade x) \<le> x" by (simp add: e)
  have "x < of_int (n + 1)" using floor_correct [of x] by (simp add: n_def)
  also have "\<dots> \<le> of_int (2 ^ nat (bitlen n))" using b(2) by (simp only: of_int_le_iff)
  also have "\<dots> = pow2 (bitlen n)" using b1 by (subst p2_nat) simp_all
  finally have "x < pow2 (binade x + 1)" by (simp add: e)
  with lo show ?thesis by simp
next
  case False
  define y where "y = 1 / x"
  have y1: "1 < y" using False assms by (simp add: y_def)
  define n where "n = \<lceil>y\<rceil> - 1"
  have n: "1 \<le> n" using y1 by (simp add: n_def less_ceiling_iff)
  then have b: "2 ^ nat (bitlen n - 1) \<le> n" "n < 2 ^ nat (bitlen n)"
    using bitlen_bounds [of n] by auto
  have b1: "1 \<le> bitlen n"
    using b(2) n by (cases "bitlen n \<le> 0") auto
  have e: "binade x = - bitlen n" using False by (simp add: binade_def n_def y_def)
  have xy: "x = 1 / y" using assms by (simp add: y_def)
  have "y \<le> of_int (n + 1)" by (simp add: n_def)
  also have "\<dots> \<le> of_int (2 ^ nat (bitlen n))" using b(2) by (simp only: of_int_le_iff)
  also have "\<dots> = pow2 (bitlen n)" using b1 by (subst p2_nat) simp_all
  finally have "y \<le> pow2 (bitlen n)" .
  then have "1 / pow2 (bitlen n) \<le> 1 / y"
    using y1 by (intro divide_left_mono) (simp_all add: p2_pos)
  moreover have "pow2 (- bitlen n) = 1 / pow2 (bitlen n)"
    by (simp add: pow2_def power_int_minus inverse_eq_divide)
  ultimately have q: "pow2 (- bitlen n) \<le> 1 / y" by simp
  have lo: "pow2 (binade x) \<le> x"
    unfolding e using q xy by simp
  have "pow2 (bitlen n - 1) = of_int (2 ^ nat (bitlen n - 1))"
    using b1 by (intro p2_nat) simp
  also have "\<dots> \<le> of_int n" using b(1) by (simp only: of_int_le_iff)
  also have "\<dots> < y" by (simp add: n_def) linarith
  finally have "pow2 (bitlen n - 1) < y" .
  with y1 have "1 / y < 1 / pow2 (bitlen n - 1)"
    by (intro divide_strict_left_mono mult_pos_pos) (simp_all add: p2_pos)
  also have "1 / pow2 (bitlen n - 1) = pow2 (- bitlen n + 1)"
    using power_int_minus [of "2::rat" "bitlen n - 1"] by (simp add: pow2_def field_simps)
  finally have "1 / y < pow2 (- bitlen n + 1)" .
  then have "x < pow2 (binade x + 1)" unfolding e using xy by simp
  with lo show ?thesis by simp
qed

lemma binade_unique:
  assumes "0 < x" "pow2 e \<le> x" "x < pow2 (e + 1)"
  shows "binade x = e"
proof -
  from binade_bounds [OF assms(1)] assms(2,3)
  have "pow2 (binade x) < pow2 (e + 1)"
    and "pow2 e < pow2 (binade x + 1)" by auto
  then have "binade x < e + 1" "e < binade x + 1" by (auto dest: p2_less_cancel)
  then show ?thesis by simp
qed

lemma binade_mono: "0 < x \<Longrightarrow> x \<le> y \<Longrightarrow> binade x \<le> binade y"
proof -
  assume a: "0 < x" "x \<le> y"
  then have "0 < y" by simp
  from binade_bounds [OF a(1)] binade_bounds [OF this] a(2)
  have "pow2 (binade x) < pow2 (binade y + 1)" by auto
  then show ?thesis by (auto dest: p2_less_cancel)
qed

lemma rhe_bounds: "\<lfloor>x\<rfloor> \<le> round_half_even x \<and> round_half_even x \<le> \<lfloor>x\<rfloor> + 1"
  by (simp add: round_half_even_def Let_def)

lemma rhe_of_int: "round_half_even (of_int n) = n"
  by (simp add: round_half_even_def)

lemma rhe_mono:
  assumes "x \<le> y"
  shows "round_half_even x \<le> round_half_even y"
proof (cases "\<lfloor>x\<rfloor> < \<lfloor>y\<rfloor>")
  case True
  then show ?thesis using rhe_bounds [of x] rhe_bounds [of y] by linarith
next
  case False
  then have f: "\<lfloor>x\<rfloor> = \<lfloor>y\<rfloor>" using floor_mono [OF assms] by simp
  then have "x - of_int \<lfloor>x\<rfloor> \<le> y - of_int \<lfloor>y\<rfloor>" using assms by simp
  then show ?thesis
    unfolding round_half_even_def Let_def f by auto
qed

lemma rhe_eqI:
  assumes "\<bar>x - of_int m\<bar> < 1 / 2"
  shows "round_half_even x = m"
proof (cases "of_int m \<le> x")
  case True
  with assms have "\<lfloor>x\<rfloor> = m" by (intro floor_unique) auto
  with assms True show ?thesis by (simp add: round_half_even_def)
next
  case False
  with assms have f: "\<lfloor>x\<rfloor> = m - 1" by (intro floor_unique) auto
  from assms False have "1 / 2 < x - of_int (m - 1)" by simp
  with f show ?thesis by (simp add: round_half_even_def)
qed

lemma rhe_tie:
  assumes "x = of_int m + 1 / 2 \<or> x = of_int m - 1 / 2" "even m"
  shows "round_half_even x = m"
proof -
  from assms(1) show ?thesis
  proof
    assume x: "x = of_int m + 1 / 2"
    then have "\<lfloor>x\<rfloor> = m" by (intro floor_unique) auto
    with x assms(2) show ?thesis by (simp add: round_half_even_def)
  next
    assume x: "x = of_int m - 1 / 2"
    then have "\<lfloor>x\<rfloor> = m - 1" by (intro floor_unique) auto
    with x assms(2) show ?thesis by (simp add: round_half_even_def)
  qed
qed

lemma rhe_ge: "of_int n \<le> x \<Longrightarrow> n \<le> round_half_even x"
  using rhe_mono [of "of_int n" x] by (simp add: rhe_of_int)

lemma rhe_le: "x \<le> of_int n \<Longrightarrow> round_half_even x \<le> n"
  using rhe_mono [of x "of_int n"] by (simp add: rhe_of_int)


lemma round_pos_nonneg: "0 < x \<Longrightarrow> 0 \<le> round_pos x"
proof -
  assume "0 < x"
  then have "0 \<le> x / pow2 (max (binade x) (- 1022) - 52)"
    by (simp add: p2_pos less_imp_le)
  then have "0 \<le> round_half_even (x / pow2 (max (binade x) (- 1022) - 52))"
    using rhe_ge [of 0] by simp
  then show ?thesis
    by (simp add: round_pos_def Let_def p2_pos less_imp_le)
qed

lemma round_pos_upper:
  assumes "0 < x"
  shows "round_pos x \<le> pow2 (max (binade x) (- 1022) + 1)"
proof -
  define e where "e = max (binade x) (- 1022)"
  define u where "u = pow2 (e - 52)"
  have u: "0 < u" by (simp add: u_def p2_pos)
  have "x < pow2 (binade x + 1)" using binade_bounds [OF assms] by simp
  also have "\<dots> \<le> pow2 (e + 1)" by (rule p2_mono) (simp add: e_def)
  also have "\<dots> = pow2 53 * u" unfolding u_def by (rule p2_53)
  finally have "x / u \<le> pow2 53" using u by (simp add: field_simps)
  also have "pow2 53 = of_int (2 ^ 53)" by (subst p2_nat) simp_all
  finally have "round_half_even (x / u) \<le> 2 ^ 53" by (rule rhe_le)
  then have "of_int (round_half_even (x / u)) * u \<le> of_int (2 ^ 53) * u"
    using u by (intro mult_right_mono) (simp_all only: of_int_le_iff less_imp_le)
  also have "of_int (2 ^ 53) * u = pow2 53 * u" by (subst p2_nat) simp_all
  also have "\<dots> = pow2 (e + 1)" unfolding u_def by (rule p2_53 [symmetric])
  finally show ?thesis by (simp add: round_pos_def Let_def e_def u_def)
qed

lemma round_pos_lower:
  assumes "0 < x" "- 1022 \<le> binade x"
  shows "pow2 (binade x) \<le> round_pos x"
proof -
  define e where "e = binade x"
  define u where "u = pow2 (e - 52)"
  have u: "0 < u" by (simp add: u_def p2_pos)
  have m: "max (binade x) (- 1022) = e" using assms(2) by (simp add: e_def)
  have "pow2 52 * u = pow2 e" unfolding u_def by (rule p2_52 [symmetric])
  also have "\<dots> \<le> x" using binade_bounds [OF assms(1)] by (simp add: e_def)
  finally have "pow2 52 \<le> x / u" using u by (simp add: field_simps)
  moreover have "pow2 52 = of_int (2 ^ 52)" by (subst p2_nat) simp_all
  ultimately have "2 ^ 52 \<le> round_half_even (x / u)" by (intro rhe_ge) simp
  then have r: "of_int (2 ^ 52) * u \<le> of_int (round_half_even (x / u)) * u"
    using u by (intro mult_right_mono) (simp_all only: of_int_le_iff less_imp_le)
  have "pow2 e = pow2 52 * u" unfolding u_def by (rule p2_52)
  also have "\<dots> = of_int (2 ^ 52) * u" by (subst p2_nat) simp_all
  also note r
  finally show ?thesis by (simp add: round_pos_def Let_def m u_def e_def)
qed

lemma round_pos_mono:
  assumes "0 < x" "x \<le> y"
  shows "round_pos x \<le> round_pos y"
proof -
  have y: "0 < y" using assms by simp
  define ex where "ex = max (binade x) (- 1022)"
  define ey where "ey = max (binade y) (- 1022)"
  have le: "ex \<le> ey" using binade_mono [OF assms] by (simp add: ex_def ey_def)
  show ?thesis
  proof (cases "ex = ey")
    case True
    define u where "u = pow2 (ey - 52)"
    have u: "0 < u" by (simp add: u_def p2_pos)
    have "x / u \<le> y / u" using assms(2) u by (simp add: divide_right_mono)
    then have "round_half_even (x / u) \<le> round_half_even (y / u)" by (rule rhe_mono)
    then have "of_int (round_half_even (x / u)) * u \<le> of_int (round_half_even (y / u)) * u"
      using u by (intro mult_right_mono) (simp_all only: of_int_le_iff less_imp_le)
    then show ?thesis
      using True by (simp add: round_pos_def Let_def ex_def ey_def u_def)
  next
    case False
    with le have lt: "ex < ey" by simp
    then have yb: "- 1022 \<le> binade y" "ey = binade y" by (auto simp add: ex_def ey_def)
    have "round_pos x \<le> pow2 (ex + 1)"
      using round_pos_upper [OF assms(1)] by (simp add: ex_def)
    also have "\<dots> \<le> pow2 ey" using lt by (intro p2_mono) simp
    also have "\<dots> \<le> round_pos y" using round_pos_lower [OF y yb(1)] by (simp add: yb(2))
    finally show ?thesis .
  qed
qed

lemma round_pos_eqI:
  assumes "0 < x" "pow2 e \<le> x" "x < pow2 (e + 1)" "- 1022 \<le> e"
    and "round_half_even (x / pow2 (e - 52)) = m"
  shows "round_pos x = of_int m * pow2 (e - 52)"
  using binade_unique [OF assms(1,2,3)] assms(4,5)
  by (simp add: round_pos_def Let_def)

lemma to_double_eqI:
  assumes "0 < x" "pow2 e \<le> x" "x < pow2 (e + 1)" "- 1022 \<le> e"
    and "round_half_even (x / pow2 (e - 52)) = m"
    and "of_int m * pow2 (e - 52) < pow2 1024"
  shows "to_double x = Finite (of_int m * pow2 (e - 52))"
  using round_pos_eqI [OF assms(1-5)] assms(1,6) by (simp add: to_double_def Let_def)

lemmas float_eval = pow2_def power_int_def power_divide

lemma price_in: "PRICE_PER_1M_INPUT_TOKENS = Finite (1 / 4)"
  unfolding PRICE_PER_1M_INPUT_TOKENS_def
  using to_double_eqI [of "25 / 100" "- 2" "2 ^ 52"] rhe_eqI [of "25 / 100 / pow2 (- 2 - 52)" "2 ^ 52"]
  by (simp add: float_eval)

lemma price_out: "PRICE_PER_1M_OUTPUT_TOKENS = Finite (5 / 4)"
  unfolding PRICE_PER_1M_OUTPUT_TOKENS_def
  using to_double_eqI [of "125 / 100" "0" "5 * 2 ^ 50"] rhe_eqI [of "125 / 100 / pow2 (0 - 52)" "5 * 2 ^ 50"]
  by (simp add: float_eval)

lemma price_1k: "PRICE_PER_1K_TOKENS = Finite (1152921504606847 / 576460752303423488)"
  unfolding PRICE_PER_1K_TOKENS_def
  using to_double_eqI [of "2 / 1000" "- 9" "4611686018427388"]
    rhe_eqI [of "2 / 1000 / pow2 (- 9 - 52)" "4611686018427388"]
  by (simp add: float_eval)

lemma lit_00675: "to_double (675 / 100000) = Finite (7782220156096217 / 1152921504606846976)"
  using to_double_eqI [of "675 / 100000" "- 8" "7782220156096217"]
    rhe_eqI [of "675 / 100000 / pow2 (- 8 - 52)" "7782220156096217"]
  by (simp add: float_eval)

lemma lit_003: "to_double (3 / 100) = Finite (1080863910568919 / 36028797018963968)"
  using to_double_eqI [of "3 / 100" "- 6" "8646911284551352"]
    rhe_eqI [of "3 / 100 / pow2 (- 6 - 52)" "8646911284551352"]
  by (simp add: float_eval)

lemma div_12000: "int_truediv 12000 1000000 = Inr (Finite (3458764513820541 / 288230376151711744))"
  using to_double_eqI [of "3 / 250" "- 7" "6917529027641082"]
    rhe_eqI [of "3 / 250 / pow2 (- 7 - 52)" "6917529027641082"]
  by (simp add: int_truediv_def float_eval)

lemma div_3000: "int_truediv 3000 1000000 = Inr (Finite (3458764513820541 / 1152921504606846976))"
  using to_double_eqI [of "3 / 1000" "- 9" "6917529027641082"]
    rhe_eqI [of "3 / 1000 / pow2 (- 9 - 52)" "6917529027641082"]
  by (simp add: int_truediv_def float_eval)

lemma mul_in_12000:
  "float_mul (Finite (3458764513820541 / 288230376151711744)) (Finite (1 / 4))
   = Finite (3458764513820541 / 1152921504606846976)"
  using to_double_eqI [of "3458764513820541 / 1152921504606846976" "- 9" "6917529027641082"]
    rhe_eqI [of "3458764513820541 / 1152921504606846976 / pow2 (- 9 - 52)" "6917529027641082"]
  by (simp add: float_eval)

lemma mul_out_3000:
  "float_mul (Finite (3458764513820541 / 1152921504606846976)) (Finite (5 / 4))
   = Finite (1080863910568919 / 288230376151711744)"
  using to_double_eqI [of "17293822569102705 / 4611686018427387904" "- 9" "8646911284551352"]
    rhe_tie [of "17293822569102705 / 4611686018427387904 / pow2 (- 9 - 52)" "8646911284551352"]
  by (simp add: float_eval)

lemma add_scenario:
  "float_add (Finite (3458764513820541 / 1152921504606846976))
     (Finite (1080863910568919 / 288230376151711744))
   = Finite (7782220156096217 / 1152921504606846976)"
  using to_double_eqI [of "7782220156096217 / 1152921504606846976" "- 8" "7782220156096217"]
    rhe_eqI [of "7782220156096217 / 1152921504606846976 / pow2 (- 8 - 52)" "7782220156096217"]
  by (simp add: float_eval)

lemma cost_scenario:
  "calculate_cost 12000 3000 = Inr (Finite (7782220156096217 / 1152921504606846976))"
  unfolding calculate_cost_def div_12000 div_3000 price_in price_out
  by (simp only: sum.case Let_def mul_in_12000 mul_out_3000 add_scenario)

lemma div_15000: "int_truediv 15000 1000 = Inr (Finite 15)"
  using to_double_eqI [of "15" "3" "8444249301319680"]
    rhe_eqI [of "15 / pow2 (3 - 52)" "8444249301319680"]
  by (simp add: int_truediv_def float_eval)

lemma estimated_15000:
  "estimated_cost 15000 = Inr (Finite (1080863910568919 / 36028797018963968))"
  unfolding estimated_cost_def div_15000 price_1k
  using to_double_eqI [of "17293822569102705 / 576460752303423488" "- 6" "8646911284551352"]
    rhe_tie [of "17293822569102705 / 576460752303423488 / pow2 (- 6 - 52)" "8646911284551352"]
  by (simp add: float_eval)

lemma div_4000000: "int_truediv 4000000 1000000 = Inr (Finite 4)"
  using to_double_eqI [of "4" "2" "2 ^ 52"] rhe_eqI [of "4 / pow2 (2 - 52)" "2 ^ 52"]
  by (simp add: int_truediv_def float_eval)

lemma to_double_1: "to_double 1 = Finite 1"
  using to_double_eqI [of "1" "0" "2 ^ 52"] rhe_eqI [of "1 / pow2 (0 - 52)" "2 ^ 52"]
  by (simp add: float_eval)

lemma p2_le_cancel: "pow2 a \<le> pow2 b \<Longrightarrow> a \<le> b"
  using p2_less_cancel [of a "b + 1"] p2_Suc [of b] p2_pos [of b] by auto

lemma to_double_pos:
  "0 < x \<Longrightarrow> to_double x = (if pow2 1024 \<le> round_pos x then PosInf else Finite (round_pos x))"
  by (simp add: to_double_def Let_def)

lemma to_double_nonneg: "0 \<le> x \<Longrightarrow> float_le (Finite 0) (to_double x)"
proof (cases "x = 0")
  case True
  then show ?thesis by (simp add: to_double_def)
next
  case False
  assume "0 \<le> x"
  with False have "0 < x" by simp
  then show ?thesis using round_pos_nonneg [of x] by (simp add: to_double_pos)
qed

lemma to_double_mono:
  assumes "0 \<le> x" "x \<le> y"
  shows "float_le (to_double x) (to_double y)"
proof (cases "x = 0")
  case True
  then show ?thesis using to_double_nonneg [of y] assms by (simp add: to_double_def)
next
  case False
  with assms have x: "0 < x" and y: "0 < y" by auto
  from round_pos_mono [OF x assms(2)] show ?thesis
    by (simp add: to_double_pos x y)
qed

lemma to_double_bounded:
  assumes "0 \<le> x" "x \<le> pow2 n" "n < 1023"
  shows "\<exists>r. to_double x = Finite r \<and> 0 \<le> r \<and> r \<le> pow2 (max n (- 1022) + 1)"
proof (cases "x = 0")
  case True
  then show ?thesis by (simp add: to_double_def p2_pos less_imp_le)
next
  case False
  with assms have x: "0 < x" by simp
  have "pow2 (binade x) \<le> pow2 n"
    using binade_bounds [OF x] assms(2) by simp
  then have b: "binade x \<le> n" by (rule p2_le_cancel)
  have "round_pos x \<le> pow2 (max (binade x) (- 1022) + 1)" by (rule round_pos_upper [OF x])
  also have "\<dots> \<le> pow2 (max n (- 1022) + 1)" using b by (intro p2_mono) simp
  finally have u: "round_pos x \<le> pow2 (max n (- 1022) + 1)" .
  have "pow2 (max n (- 1022) + 1) < pow2 1024"
    using assms(3) unfolding pow2_def by (intro power_int_strict_increasing) simp_all
  with u have "\<not> pow2 1024 \<le> round_pos x" by simp
  with u round_pos_nonneg [OF x] show ?thesis by (simp add: to_double_pos x)
qed

text \<open>Floats that are not negative: a finite one from 0 on, or the positive infinity.\<close>

lemma nn_cases: "float_le (Finite 0) f \<Longrightarrow> (\<exists>r. f = Finite r \<and> 0 \<le> r) \<or> f = PosInf"
  by (cases f) auto

lemma to_double_not_nan: "to_double x \<noteq> NaN"
  by (simp add: to_double_def Let_def)

lemma float_le_PosInf: "f \<noteq> NaN \<Longrightarrow> float_le f PosInf"
  by (cases f) auto

lemma float_mul_mono:
  assumes "float_le (Finite 0) a" "float_le a a'" "0 < p"
  shows "float_le (Finite 0) (float_mul a (Finite p))
       \<and> float_le (float_mul a (Finite p)) (float_mul a' (Finite p))"
proof -
  from assms(1) consider r where "a = Finite r" "0 \<le> r" | "a = PosInf"
    using nn_cases by blast
  then show ?thesis
  proof cases
    case 1
    show ?thesis
    proof (cases a')
      case (Finite r')
      with 1 assms show ?thesis
        by (simp add: to_double_nonneg to_double_mono mult_right_mono)
    next
      case PosInf
      with 1 assms show ?thesis
        by (simp add: to_double_nonneg inf_of_sign_def float_le_PosInf to_double_not_nan)
    qed (use 1 assms in auto)
  next
    case 2
    with assms show ?thesis by (cases a') (auto simp add: inf_of_sign_def)
  qed
qed

lemma float_add_mono:
  assumes "float_le (Finite 0) a" "float_le a a'" "float_le (Finite 0) b" "float_le b b'"
  shows "float_le (Finite 0) (float_add a b) \<and> float_le (float_add a b) (float_add a' b')"
proof -
  from assms(1,2) have a': "float_le (Finite 0) a'" by (cases a; cases a') auto
  from assms(3,4) have b': "float_le (Finite 0) b'" by (cases b; cases b') auto
  from assms(1) consider r where "a = Finite r" "0 \<le> r" | "a = PosInf" using nn_cases by blast
  then show ?thesis
  proof cases
    case 1
    from assms(3) consider s where "b = Finite s" "0 \<le> s" | "b = PosInf" using nn_cases by blast
    then show ?thesis
    proof cases
      case b1: 1
      show ?thesis
      proof (cases a'; cases b')
        fix r' s' assume "a' = Finite r'" "b' = Finite s'"
        with 1 b1 assms show ?thesis
          by (simp add: to_double_nonneg to_double_mono add_mono)
      qed (use 1 b1 assms a' b' in \<open>auto simp add: to_double_nonneg float_le_PosInf to_double_not_nan\<close>)
    next
      case 2
      with 1 assms a' b' show ?thesis by (cases a'; cases b') auto
    qed
  next
    case 2
    with assms a' b' show ?thesis by (cases b; cases a'; cases b') auto
  qed
qed

lemma int_truediv_nonneg:
  assumes "0 \<le> i" "int_truediv i 1000000 = Inr q"
  shows "\<exists>r. q = Finite r \<and> 0 \<le> r \<and> to_double (of_int i / 1000000) = Finite r"
proof (cases "to_double (of_int i / 1000000)")
  case (Finite r)
  with assms to_double_nonneg [of "of_int i / 1000000"] show ?thesis
    by (auto simp add: int_truediv_def)
qed (use assms in \<open>simp_all add: int_truediv_def\<close>)

lemma int_truediv_mono:
  assumes "0 \<le> i" "i \<le> i'" "int_truediv i 1000000 = Inr q" "int_truediv i' 1000000 = Inr q'"
  shows "float_le (Finite 0) q \<and> float_le q q'"
proof -
  have "float_le (to_double (of_int i / 1000000)) (to_double (of_int i' / 1000000))"
    using assms(1,2) by (intro to_double_mono) (simp_all add: divide_right_mono)
  with int_truediv_nonneg [OF assms(1,3)] int_truediv_nonneg [of i' q'] assms
  show ?thesis by auto
qed

lemma calculate_cost_Inr:
  "calculate_cost i k = Inr c \<longleftrightarrow>
     (\<exists>qi qo. int_truediv i 1000000 = Inr qi \<and> int_truediv k 1000000 = Inr qo
        \<and> c = float_add (float_mul qi (Finite (1 / 4))) (float_mul qo (Finite (5 / 4))))"
  by (auto simp add: calculate_cost_def Let_def price_in price_out split: sum.splits)

lemma calculate_cost_mono:
  assumes "0 \<le> i" "i \<le> i'" "0 \<le> k" "k \<le> k'"
    and "calculate_cost i k = Inr c" "calculate_cost i' k' = Inr c'"
  shows "float_le (Finite 0) c \<and> float_le c c'"
proof -
  from assms(5) obtain qi qo where q: "int_truediv i 1000000 = Inr qi"
    "int_truediv k 1000000 = Inr qo"
    "c = float_add (float_mul qi (Finite (1 / 4))) (float_mul qo (Finite (5 / 4)))"
    unfolding calculate_cost_Inr by blast
  from assms(6) obtain qi' qo' where q': "int_truediv i' 1000000 = Inr qi'"
    "int_truediv k' 1000000 = Inr qo'"
    "c' = float_add (float_mul qi' (Finite (1 / 4))) (float_mul qo' (Finite (5 / 4)))"
    unfolding calculate_cost_Inr by blast
  from int_truediv_mono [OF assms(1,2) q(1) q'(1)]
  have mi: "float_le (Finite 0) (float_mul qi (Finite (1 / 4)))
       \<and> float_le (float_mul qi (Finite (1 / 4))) (float_mul qi' (Finite (1 / 4)))"
    by (intro float_mul_mono) simp_all
  from int_truediv_mono [OF assms(3,4) q(2) q'(2)]
  have mo: "float_le (Finite 0) (float_mul qo (Finite (5 / 4)))
       \<and> float_le (float_mul qo (Finite (5 / 4))) (float_mul qo' (Finite (5 / 4)))"
    by (intro float_mul_mono) simp_all
  from mi mo show ?thesis unfolding q(3) q'(3) by (intro float_add_mono) simp_all
qed

lemma calculate_cost_zero: "calculate_cost 0 0 = Inr (Finite 0)"
  by (simp add: calculate_cost_def int_truediv_def to_double_def price_in price_out)

lemma to_double_0: "to_double 0 = Finite 0"
  by (simp add: to_double_def)

lemma calculate_cost_4000000: "calculate_cost 4000000 0 = Inr (Finite 1)"
  unfolding calculate_cost_def div_4000000 price_in price_out
  by (simp add: int_truediv_def to_double_1 to_double_0)

lemma calculate_cost_total:
  assumes "0 \<le> i" "i \<le> 10 ^ 300" "0 \<le> k" "k \<le> 10 ^ 300"
  shows "\<exists>r. calculate_cost i k = Inr (Finite r)"
proof -
  have bound: "(10::rat) ^ 294 \<le> pow2 1000" by (simp add: pow2_def power_int_def)
  have "(of_int i :: rat) \<le> of_int (10 ^ 300)" using assms(2) by (simp only: of_int_le_iff)
  then have "(of_int i :: rat) / 1000000 \<le> 10 ^ 294" by simp
  with bound have xi: "(of_int i :: rat) / 1000000 \<le> pow2 1000" by simp
  have "(of_int k :: rat) \<le> of_int (10 ^ 300)" using assms(4) by (simp only: of_int_le_iff)
  then have "(of_int k :: rat) / 1000000 \<le> 10 ^ 294" by simp
  with bound have xk: "(of_int k :: rat) / 1000000 \<le> pow2 1000" by simp
  from to_double_bounded [OF _ xi] assms(1)
  obtain a where a: "to_double (of_int i / 1000000) = Finite a" "0 \<le> a" "a \<le> pow2 1001"
    by auto
  from to_double_bounded [OF _ xk] assms(3)
  obtain b where b: "to_double (of_int k / 1000000) = Finite b" "0 \<le> b" "b \<le> pow2 1001"
    by auto
  have "a * (1 / 4) \<le> pow2 1001" using a by simp
  from to_double_bounded [OF _ this] a(2)
  obtain a2 where a2: "to_double (a * (1 / 4)) = Finite a2" "0 \<le> a2" "a2 \<le> pow2 1002"
    by auto
  have "b * (5 / 4) \<le> 2 * pow2 1001" using b by simp
  then have "b * (5 / 4) \<le> pow2 1002" using p2_Suc [of 1001] by simp
  from to_double_bounded [OF _ this] b(2)
  obtain b2 where b2: "to_double (b * (5 / 4)) = Finite b2" "0 \<le> b2" "b2 \<le> pow2 1003"
    by auto
  have "a2 + b2 \<le> 2 * pow2 1003" using a2(3) b2(3) p2_mono [of 1002 1003] by simp
  then have "a2 + b2 \<le> pow2 1004" using p2_Suc [of 1003] by simp
  from to_double_bounded [OF _ this] a2(2) b2(2)
  obtain c where c: "to_double (a2 + b2) = Finite c" by auto
  have di: "int_truediv i 1000000 = Inr (Finite a)" by (simp add: int_truediv_def a)
  have dk: "int_truediv k 1000000 = Inr (Finite b)" by (simp add: int_truediv_def b)
  have "calculate_cost i k = Inr (Finite c)"
    unfolding calculate_cost_def di dk price_in price_out
    by (simp only: sum.case Let_def float_mul.simps float_add.simps a2 b2 c)
  then show ?thesis by blast
qed


text \<open>
  C9: for token counts that are not negative, \<^verbatim>\<open>calculate_cost\<close> returns exactly zero
  at zero tokens; a cost it returns is never negative; when the counts grow (one of
  them or both) the cost it returns does not shrink; and for counts up to \<open>10^300\<close>
  it does return a finite cost (beyond about \<open>1.8 * 10^314\<close> the division raises
  \<^verbatim>\<open>OverflowError\<close>, which is no cost at all).
\<close>

theorem cost_monotone:
  assumes "0 \<le> i" "i \<le> i'" "0 \<le> k" "k \<le> k'"
  shows "calculate_cost 0 0 = Inr (Finite 0)
       \<and> (\<forall>c. calculate_cost i k = Inr c \<longrightarrow> float_le (Finite 0) c)
       \<and> (\<forall>c c'. calculate_cost i k = Inr c \<and> calculate_cost i' k' = Inr c' \<longrightarrow> float_le c c')
       \<and> (i' \<le> 10 ^ 300 \<and> k' \<le> 10 ^ 300 \<longrightarrow>
            (\<exists>r r'. calculate_cost i k = Inr (Finite r) \<and> calculate_cost i' k' = Inr (Finite r')
                     \<and> 0 \<le> r \<and> r \<le> r'))"
proof (intro conjI allI impI)
  show "calculate_cost 0 0 = Inr (Finite 0)" by (rule calculate_cost_zero)
next
  fix c assume "calculate_cost i k = Inr c"
  with calculate_cost_mono [of i i k k c c] assms show "float_le (Finite 0) c" by simp
next
  fix c c' assume "calculate_cost i k = Inr c \<and> calculate_cost i' k' = Inr c'"
  with calculate_cost_mono [OF assms, of c c'] show "float_le c c'" by simp
next
  assume b: "i' \<le> 10 ^ 300 \<and> k' \<le> 10 ^ 300"
  with assms have "i \<le> 10 ^ 300" "k \<le> 10 ^ 300" by auto
  from calculate_cost_total [OF assms(1) this(1) assms(3) this(2)]
  obtain r where r: "calculate_cost i k = Inr (Finite r)" by blast
  from assms have "0 \<le> i'" "0 \<le> k'" by auto
  from calculate_cost_total [OF this(1) _ this(2)] b
  obtain r' where r': "calculate_cost i' k' = Inr (Finite r')" by blast
  from calculate_cost_mono [OF assms r r'] have "0 \<le> r" "r \<le> r'" by simp_all
  with r r' show "\<exists>r r'. calculate_cost i k = Inr (Finite r) \<and> calculate_cost i' k' = Inr (Finite r')
                     \<and> 0 \<le> r \<and> r \<le> r'" by blast
qed

theorem cost_monotone_witness:
  "calculate_cost 0 0 = Inr (Finite 0)
   \<and> calculate_cost 12000 3000 = Inr (Finite (7782220156096217 / 1152921504606846976))
   \<and> float_le (Finite 0) (Finite (7782220156096217 / 1152921504606846976))"
proof -
  have h: "(0::int) \<le> 0" "(0::int) \<le> 12000" "(0::int) \<le> 3000" by simp_all
  from cost_monotone [OF h(1) h(2) h(1) h(3)]
  have z: "calculate_cost 0 0 = Inr (Finite 0)"
    and m: "\<forall>c c'. calculate_cost 0 0 = Inr c \<and> calculate_cost 12000 3000 = Inr c' \<longrightarrow> float_le c c'"
    by blast+
  from m z cost_scenario
  have "float_le (Finite 0) (Finite (7782220156096217 / 1152921504606846976))" by blast
  with z cost_scenario show ?thesis by blast
qed




subsection \<open>The scanners\<close>

lemma os_walk_node_paths:
  "(d, fs) \<in> set (os_walk_node keep parent n)
   \<Longrightarrow> \<exists>rest. d = parent @ rest \<and> (\<forall>c \<in> set rest. keep c)"
proof (induction keep parent n arbitrary: d fs rule: os_walk_node.induct)
  case (1 keep parent n c)
  then show ?case by simp
next
  case (2 keep parent n es)
  show ?case
  proof (cases "keep n")
    case False
    with 2(2) show ?thesis by simp
  next
    case True
    with 2(2) consider "d = parent @ [n]"
      | e where "e \<in> set es" "(d, fs) \<in> set (os_walk_node keep (parent @ [n]) e)"
      by auto
    then show ?thesis
    proof cases
      case 1
      with True show ?thesis by auto
    next
      case 2
      from "2.IH" [OF True 2(1) 2(2)] obtain rest
        where "d = (parent @ [n]) @ rest" "\<forall>c \<in> set rest. keep c" by blast
      with True show ?thesis by (intro exI [of _ "n # rest"]) simp
    qed
  qed
qed

lemma os_walk_paths:
  "(d, fs) \<in> set (os_walk keep es) \<Longrightarrow> \<forall>c \<in> set d. keep c"
  by (auto simp add: os_walk_def dest: os_walk_node_paths)

lemma fold_events:
  assumes "\<And>x acc. x \<in> set xs \<Longrightarrow> ev \<in> set (snd (step x acc)) \<Longrightarrow> ev \<in> set (snd acc) \<or> P x"
    and "ev \<in> set (snd (fold step xs acc))"
  shows "ev \<in> set (snd acc) \<or> (\<exists>x \<in> set xs. P x)"
  using assms
proof (induction xs arbitrary: acc)
  case Nil
  then show ?case by simp
next
  case (Cons x xs)
  from Cons.prems(2) have "ev \<in> set (snd (fold step xs (step x acc)))" by simp
  from Cons.IH [OF _ this] Cons.prems(1)
  have "ev \<in> set (snd (step x acc)) \<or> (\<exists>y \<in> set xs. P y)" by auto
  with Cons.prems(1) [of x acc] show ?case by auto
qed

lemma read_project_file_events:
  "ReadFile p \<in> set (snd (read_project_file spec dir entry acc))
   \<Longrightarrow> ReadFile p \<in> set (snd acc) \<or> (p = dir @ [fst entry] \<and> \<not> match_file spec p)"
  by (auto simp add: read_project_file_def Let_def split: prod.splits if_splits option.splits)

lemma read_typescript_file_events:
  "ReadFile p \<in> set (snd (read_typescript_file spec dir entry acc))
   \<Longrightarrow> ReadFile p \<in> set (snd acc) \<or> (p = dir @ [fst entry] \<and> \<not> match_file spec p)"
  by (auto simp add: read_typescript_file_def Let_def split: prod.splits if_splits option.splits)

lemma scan_project_dir_events:
  assumes "ReadFile p \<in> set (snd (scan_project_dir spec visit acc))"
  shows "ReadFile p \<in> set (snd acc)
       \<or> (\<not> skip_dir spec (fst visit) \<and> butlast p = fst visit \<and> p \<noteq> [] \<and> \<not> match_file spec p)"
proof (cases "skip_dir spec (fst visit)")
  case True
  with assms show ?thesis by (simp add: scan_project_dir_def split: prod.splits)
next
  case False
  with assms have "ReadFile p \<in> set (snd (fold (read_project_file spec (fst visit)) (snd visit) acc))"
    by (simp add: scan_project_dir_def split: prod.splits)
  from fold_events [where P = "\<lambda>entry. p = fst visit @ [fst entry] \<and> \<not> match_file spec p", OF _ this]
  have "ReadFile p \<in> set (snd acc)
      \<or> (\<exists>entry \<in> set (snd visit). p = fst visit @ [fst entry] \<and> \<not> match_file spec p)"
    using read_project_file_events by blast
  with False show ?thesis by auto
qed

lemma scan_typescript_dir_events:
  assumes "ReadFile p \<in> set (snd (scan_typescript_dir spec visit acc))"
  shows "ReadFile p \<in> set (snd acc)
       \<or> (\<not> skip_dir spec (fst visit) \<and> butlast p = fst visit \<and> p \<noteq> [] \<and> \<not> match_file spec p)"
proof (cases "skip_dir spec (fst visit)")
  case True
  with assms show ?thesis by (simp add: scan_typescript_dir_def split: prod.splits)
next
  case False
  with assms have "ReadFile p \<in> set (snd (fold (read_typescript_file spec (fst visit)) (snd visit) acc))"
    by (simp add: scan_typescript_dir_def split: prod.splits)
  from fold_events [where P = "\<lambda>entry. p = fst visit @ [fst entry] \<and> \<not> match_file spec p", OF _ this]
  have "ReadFile p \<in> set (snd acc)
      \<or> (\<exists>entry \<in> set (snd visit). p = fst visit @ [fst entry] \<and> \<not> match_file spec p)"
    using read_typescript_file_events by blast
  with False show ?thesis by auto
qed



lemma get_gitignore_spec_trace:
  "ReadFile p \<notin> set (snd (get_gitignore_spec w))"
  by (auto simp add: get_gitignore_spec_def io_return_def io_then_def io_emit_def io_raise_def
      io_simps split: option.splits node.splits)

lemma read_project_files_reads:
  assumes "ReadFile p \<in> set (snd (read_project_files w))"
  shows "\<exists>spec. fst (get_gitignore_spec w) = Inr spec \<and> scanned spec p"
proof (cases "get_gitignore_spec w")
  case (Pair r t)
  have t: "ReadFile p \<notin> set t" using get_gitignore_spec_trace [of p w] Pair by simp
  show ?thesis
  proof (cases r)
    case (Inl e)
    with assms Pair t show ?thesis by (simp add: read_project_files_def io_simps)
  next
    case (Inr spec)
    define acc0 :: "scan \<times> event list"
      where "acc0 = (\<lparr>typescript_content = [], prisma_schema = [], file_list = []\<rparr>, [])"
    from assms Pair Inr t
    have "ReadFile p \<in> set (snd (fold (scan_project_dir spec) (os_walk keep_dir (project_tree w)) acc0))"
      by (auto simp add: read_project_files_def io_simps acc0_def split: prod.splits)
    from fold_events [where P = "\<lambda>visit. \<not> skip_dir spec (fst visit) \<and> butlast p = fst visit
          \<and> p \<noteq> [] \<and> \<not> match_file spec p", OF _ this]
    obtain visit where v: "visit \<in> set (os_walk keep_dir (project_tree w))"
      "\<not> skip_dir spec (fst visit)" "butlast p = fst visit" "p \<noteq> []" "\<not> match_file spec p"
      using scan_project_dir_events by (fastforce simp add: acc0_def)
    from v(1) have "\<forall>c \<in> set (fst visit). keep_dir c"
      using os_walk_paths [of "fst visit" "snd visit"] by simp
    with v Pair Inr show ?thesis by (simp add: scanned_def)
  qed
qed

lemma read_typescript_files_reads:
  assumes "ReadFile p \<in> set (snd (read_typescript_files w))"
  shows "\<exists>spec. fst (get_gitignore_spec w) = Inr spec \<and> scanned spec p"
proof (cases "get_gitignore_spec w")
  case (Pair r t)
  have t: "ReadFile p \<notin> set t" using get_gitignore_spec_trace [of p w] Pair by simp
  show ?thesis
  proof (cases r)
    case (Inl e)
    with assms Pair t show ?thesis by (simp add: read_typescript_files_def io_simps)
  next
    case (Inr spec)
    define acc0 :: "(string \<times> string) list \<times> event list" where "acc0 = ([], [])"
    from assms Pair Inr t
    have "ReadFile p \<in> set (snd (fold (scan_typescript_dir spec) (os_walk keep_dir (project_tree w)) acc0))"
      by (auto simp add: read_typescript_files_def io_simps acc0_def split: prod.splits)
    from fold_events [where P = "\<lambda>visit. \<not> skip_dir spec (fst visit) \<and> butlast p = fst visit
          \<and> p \<noteq> [] \<and> \<not> match_file spec p", OF _ this]
    obtain visit where v: "visit \<in> set (os_walk keep_dir (project_tree w))"
      "\<not> skip_dir spec (fst visit)" "butlast p = fst visit" "p \<noteq> []" "\<not> match_file spec p"
      using scan_typescript_dir_events by (fastforce simp add: acc0_def)
    from v(1) have "\<forall>c \<in> set (fst visit). keep_dir c"
      using os_walk_paths [of "fst visit" "snd visit"] by simp
    with v Pair Inr show ?thesis by (simp add: scanned_def)
  qed
qed

lemma scanned_dirs:
  assumes "scanned spec p"
  shows "set (butlast p) \<inter> set (pruned_dirs @ skipped_parts) = {}"
proof -
  from assms have k: "\<forall>c \<in> set (butlast p). keep_dir c" and s: "\<not> skip_dir spec (butlast p)"
    by (simp_all add: scanned_def)
  from s have "''tests'' \<notin> set (relpath (butlast p))" "''seeders'' \<notin> set (relpath (butlast p))"
    "''config'' \<notin> set (relpath (butlast p))"
    by (auto simp add: skip_dir_def Let_def split: if_splits)
  then have "set (butlast p) \<inter> set skipped_parts = {}"
    by (cases "butlast p = []") (auto simp add: relpath_def skipped_parts_def)
  moreover from k have "set (butlast p) \<inter> set pruned_dirs = {}"
    by (auto simp add: keep_dir_def)
  ultimately show ?thesis by auto
qed












text \<open>
  C6: whatever the tree and the ignore file, a file that either scanner opens
  (\<^verbatim>\<open>read_project_files\<close> of class-diagram.py, \<^verbatim>\<open>read_typescript_files\<close> of
  code-explanation.py) has no directory named \<^verbatim>\<open>.git\<close>, \<^verbatim>\<open>node_modules\<close>, \<^verbatim>\<open>dist\<close>,
  \<^verbatim>\<open>build\<close>, \<^verbatim>\<open>tests\<close>, \<^verbatim>\<open>seeders\<close> or \<^verbatim>\<open>config\<close> on its path below the project
  directory. The trace records every attempt to open a file, also one that fails.
\<close>

theorem pruned_never_read:
  assumes "ReadFile p \<in> set (snd (read_project_files w))
         \<or> ReadFile p \<in> set (snd (read_typescript_files w))"
  shows "set (butlast p)
         \<inter> {''.git'', ''node_modules'', ''dist'', ''build'', ''tests'', ''seeders'', ''config''} = {}"
proof -
  from assms obtain spec where "scanned spec p"
    using read_project_files_reads read_typescript_files_reads by blast
  from scanned_dirs [OF this] show ?thesis
    by (simp add: pruned_dirs_def skipped_parts_def)
qed

theorem pruned_never_read_witness:
  "snd (read_project_files scenario_world) = [ReadIgnore, ReadFile [''src'', ''a.ts''], Log INFO]
   \<and> snd (read_typescript_files scenario_world) = [ReadIgnore, ReadFile [''src'', ''a.ts''], Log INFO]
   \<and> set (butlast [''src'', ''a.ts''])
       \<inter> {''.git'', ''node_modules'', ''dist'', ''build'', ''tests'', ''seeders'', ''config''} = {}"
proof -
  have t: "snd (read_project_files scenario_world) = [ReadIgnore, ReadFile [''src'', ''a.ts''], Log INFO]"
    by code_simp
  have u: "snd (read_typescript_files scenario_world) = [ReadIgnore, ReadFile [''src'', ''a.ts''], Log INFO]"
    by code_simp
  from t have "ReadFile [''src'', ''a.ts''] \<in> set (snd (read_project_files scenario_world))
         \<or> ReadFile [''src'', ''a.ts''] \<in> set (snd (read_typescript_files scenario_world))"
    by simp
  from pruned_never_read [OF this] t u show ?thesis by blast
qed






subsection \<open>A missing credential\<close>

lemmas io_defs = io_return_def io_raise_def io_emit_def io_lift_def io_then_def opt_raise_def
  log_msg_def invoke_def count_tokens_def

lemma io_bind_Inr:
  "fst (io_bind m f) = Inr y \<longleftrightarrow> (\<exists>x. fst m = Inr x \<and> fst (f x) = Inr y)"
  by (cases m; cases "fst m") (auto simp add: io_simps)

lemma io_try_Inr:
  "fst (io_try m h) = Inr y \<longleftrightarrow> fst m = Inr y \<or> (\<exists>e. fst m = Inl e \<and> fst (h e) = Inr y)"
  by (cases m; cases "fst m") (auto simp add: io_simps)

lemma io_try_total:
  assumes "\<And>e. \<exists>v. fst (h e) = Inr v"
  shows "\<exists>v. fst (io_try m h) = Inr v"
  using assms by (cases m; cases "fst m") (auto simp add: io_simps)














subsection \<open>Exceptions at the boundaries\<close>






lemma generate_explanation_with_screenshot_total:
  "\<exists>v. fst (generate_explanation_with_screenshot w file_name file_content output_dir) = Inr v"
  unfolding generate_explanation_with_screenshot_def
  by (rule io_try_total) (simp add: io_defs io_simps)

lemma create_word_document_total:
  "\<exists>v. fst (create_word_document w explanations output_dir) = Inr v"
  unfolding create_word_document_def by (rule io_try_total) (simp add: io_defs io_simps)








subsection \<open>No matching file\<close>

text \<open>
  C4 at a project with no TypeScript file, every external call succeeding:
  \<^verbatim>\<open>generate_code_explanations\<close> returns the empty list of explanations, which the
  script reports as a failure, and yet \<^verbatim>\<open>create_word_document\<close> has been called with
  that empty list and has written \<^verbatim>\<open>code_explanations.docx\<close>. On the same project
  class-diagram.py logs the error and writes nothing.
\<close>

theorem empty_scan_writes_document:
  "generate_code_explanations no_sources_world ''./output''
   = (Inr ([], 0, 0, Finite 0, Some ''./output/code_explanations.docx''),
      [Log INFO, WriteFile ''./output/code_explanations.docx'', Log INFO])
   \<and> class_diagram_main no_sources_world = (Inr 0, [Log INFO, Log ERROR])"
  by (simp add: class_diagram_main_def generate_class_diagram_def read_project_files_def
      scan_project_dir_def read_project_file_def generate_code_explanations_def read_typescript_files_def
      get_gitignore_spec_def scan_typescript_dir_def read_typescript_file_def
      create_word_document_def os_path_join_def startswith_def
      os_walk_def skip_dir_def relpath_def match_file_def truthy_def endswith_def path_str_def
      keep_dir_def pruned_dirs_def
      no_sources_world_def idle_world_def io_defs io_simps calculate_cost_zero Let_def)

subsection \<open>The cost of a run\<close>

lemma generate_class_diagram_cost:
  assumes "fst (generate_class_diagram w) = Inr (d, i, k, c, files)"
  shows "calculate_cost i k = Inr c"
  using assms unfolding generate_class_diagram_def io_try_Inr
  by (auto simp add: io_bind_Inr io_defs calculate_cost_zero split: if_splits)

lemma generate_code_explanations_cost:
  assumes "fst (generate_code_explanations w output_dir) = Inr (ex, i, k, c, doc)"
  shows "calculate_cost i k = Inr c"
  using assms unfolding generate_code_explanations_def io_try_Inr
  by (auto simp add: io_bind_Inr io_defs calculate_cost_zero split: if_splits)

lemma calculate_cost_formula:
  assumes "int_truediv i 1000000 = Inr qi" "int_truediv k 1000000 = Inr qo"
  shows "calculate_cost i k
       = Inr (float_add (float_mul qi (to_double (25 / 100))) (float_mul qo (to_double (125 / 100))))"
  using assms
  by (simp add: calculate_cost_def Let_def PRICE_PER_1M_INPUT_TOKENS_def
      PRICE_PER_1M_OUTPUT_TOKENS_def)

text \<open>
  C1, as stated: the cost of every run is computed from two counts at the two rates per
  million. use-case.py has one count of all tokens and one rate, \<^verbatim>\<open>0.002\<close> per thousand:
  for the 15000 tokens of the scenario it reports \<^verbatim>\<open>0.03\<close>, where the formula of the
  claim gives \<^verbatim>\<open>0.00675\<close> for 12000 and 3000.
\<close>

theorem use_case_rate_counterexample:
  "estimated_cost (12000 + 3000) = Inr (to_double (3 / 100))
   \<and> calculate_cost 12000 3000 = Inr (to_double (675 / 100000))
   \<and> estimated_cost (12000 + 3000) \<noteq> calculate_cost 12000 3000"
proof -
  have n: "(12000 + 3000 :: int) = 15000" by simp
  have e: "estimated_cost (12000 + 3000) = Inr (to_double (3 / 100))"
    by (simp only: n estimated_15000 lit_003)
  have c: "calculate_cost 12000 3000 = Inr (to_double (675 / 100000))"
    by (simp only: cost_scenario lit_00675)
  have "estimated_cost (12000 + 3000) \<noteq> calculate_cost 12000 3000"
    by (simp only: n estimated_15000 cost_scenario) simp
  with e c show ?thesis by blast
qed

text \<open>
  C1, amended: in class-diagram.py and code-explanation.py the cost a run returns is
  \<^verbatim>\<open>calculate_cost\<close> of the input and output token counts it returns;
  \<^verbatim>\<open>calculate_cost\<close> is \<^verbatim>\<open>input_tokens/1e6 * 0.25 + output_tokens/1e6 * 1.25\<close> in float
  arithmetic (each division, product and the sum rounded to a double); and for 12000 and
  3000 tokens it is the float \<^verbatim>\<open>0.00675\<close>, which is also the exact value of the formula,
  27/4000, rounded once.
\<close>

theorem cost_formula:
  "(\<forall>d i k c files. fst (generate_class_diagram w) = Inr (d, i, k, c, files)
       \<longrightarrow> calculate_cost i k = Inr c)
   \<and> (\<forall>ex i k c doc. fst (generate_code_explanations w output_dir) = Inr (ex, i, k, c, doc)
       \<longrightarrow> calculate_cost i k = Inr c)
   \<and> (\<forall>qi qo. int_truediv i 1000000 = Inr qi \<and> int_truediv k 1000000 = Inr qo
       \<longrightarrow> calculate_cost i k
           = Inr (float_add (float_mul qi (to_double (25 / 100)))
                            (float_mul qo (to_double (125 / 100)))))
   \<and> calculate_cost 12000 3000 = Inr (to_double (675 / 100000))
   \<and> calculate_cost 12000 3000
       = Inr (to_double (12000 / 1000000 * (25 / 100) + 3000 / 1000000 * (125 / 100)))"
proof (intro conjI allI impI)
  show c: "calculate_cost 12000 3000 = Inr (to_double (675 / 100000))"
    by (simp only: cost_scenario lit_00675)
  have "(12000 / 1000000 * (25 / 100) + 3000 / 1000000 * (125 / 100) :: rat) = 675 / 100000"
    by simp
  then show "calculate_cost 12000 3000
       = Inr (to_double (12000 / 1000000 * (25 / 100) + 3000 / 1000000 * (125 / 100)))"
    using c by (simp only:)
next
  fix d i' k' c files
  assume "fst (generate_class_diagram w) = Inr (d, i', k', c, files)"
  then show "calculate_cost i' k' = Inr c" by (rule generate_class_diagram_cost)
next
  fix ex i' k' c doc
  assume "fst (generate_code_explanations w output_dir) = Inr (ex, i', k', c, doc)"
  then show "calculate_cost i' k' = Inr c" by (rule generate_code_explanations_cost)
next
  fix qi qo
  assume "int_truediv i 1000000 = Inr qi \<and> int_truediv k 1000000 = Inr qo"
  then show "calculate_cost i k
           = Inr (float_add (float_mul qi (to_double (25 / 100)))
                            (float_mul qo (to_double (125 / 100))))"
    using calculate_cost_formula by blast
qed

lemma priced_run:
  "generate_class_diagram priced_world
   = (Inr (''classDiagram'', 12000, 3000, Finite (7782220156096217 / 1152921504606846976), [''a.ts'']),
      [ReadFile [''a.ts''], Log INFO, NetworkCall, Log INFO, CountTokens, CountTokens])"
  by (simp add: generate_class_diagram_def read_project_files_def
      get_gitignore_spec_def generate_diagram_def scan_project_dir_def read_project_file_def
      os_walk_def skip_dir_def relpath_def match_file_def truthy_def endswith_def path_str_def
      priced_world_def idle_world_def io_defs io_simps cost_scenario Let_def)

theorem cost_formula_witness:
  "fst (generate_class_diagram priced_world)
     = Inr (''classDiagram'', 12000, 3000, Finite (7782220156096217 / 1152921504606846976), [''a.ts''])
   \<and> calculate_cost 12000 3000 = Inr (Finite (7782220156096217 / 1152921504606846976))
   \<and> to_double (675 / 100000) = Finite (7782220156096217 / 1152921504606846976)"
proof -
  have r: "fst (generate_class_diagram priced_world)
     = Inr (''classDiagram'', 12000, 3000, Finite (7782220156096217 / 1152921504606846976), [''a.ts''])"
    by (simp add: priced_run)
  from cost_formula [of priced_world] r
  have "calculate_cost 12000 3000 = Inr (Finite (7782220156096217 / 1152921504606846976))"
    by blast
  with r lit_00675 show ?thesis by blast
qed

subsection \<open>An empty completion\<close>













end
